theory Spec2Isabelle
  imports Main "HOL-Library.Sublist" "HOL-Library.Word"
begin

section \<open>JavaScript strings\<close>

text \<open>
  A JavaScript string is a sequence of UTF-16 code units; \<open>length\<close>, \<open>split\<close>,
  \<open>trim\<close> and the regular expressions of \<open>server.ts\<close> (none has the \<open>u\<close> flag) all
  work on code units. A code unit is modelled by its number. The result of
  \<open>buffer.toString("binary")\<close> is the string whose code units are the bytes of the buffer.
\<close>

type_synonym jsstring = "nat list"

definition js :: "string \<Rightarrow> jsstring" where
  "js s = map of_char s"

text \<open>\<open>\s\<close> of a regular expression, which is also what \<open>trim()\<close> strips: the
  WhiteSpace and LineTerminator code units of ECMAScript.\<close>

definition isWhiteSpace :: "nat \<Rightarrow> bool" where
  "isWhiteSpace c =
     (c = 9 \<or> c = 10 \<or> c = 11 \<or> c = 12 \<or> c = 13 \<or> c = 32 \<or> c = 160 \<or> c = 5760
      \<or> (8192 \<le> c \<and> c \<le> 8202) \<or> c = 8232 \<or> c = 8233 \<or> c = 8239 \<or> c = 8287
      \<or> c = 12288 \<or> c = 65279)"

text \<open>\<open>\d\<close> is \<open>[0-9]\<close> and \<open>\w\<close> is \<open>[A-Za-z0-9_]\<close>.\<close>

definition isDigit :: "nat \<Rightarrow> bool" where
  "isDigit c = (48 \<le> c \<and> c \<le> 57)"

definition isWordChar :: "nat \<Rightarrow> bool" where
  "isWordChar c = ((65 \<le> c \<and> c \<le> 90) \<or> (97 \<le> c \<and> c \<le> 122) \<or> isDigit c \<or> c = 95)"

text \<open>\<open>s.trim()\<close>\<close>

definition trim :: "jsstring \<Rightarrow> jsstring" where
  "trim s = rev (dropWhile isWhiteSpace (rev (dropWhile isWhiteSpace s)))"

text \<open>\<open>s.split(re)\<close> for a regular expression \<open>re\<close> that matches exactly one code unit of
  a class \<open>p\<close>, and \<open>s.split(c)\<close> for a separator of one code unit: every separator ends a
  piece, empty pieces are kept, and the empty string gives one empty piece.\<close>

fun splitOn :: "(nat \<Rightarrow> bool) \<Rightarrow> jsstring \<Rightarrow> jsstring list" where
  "splitOn p [] = [[]]"
| "splitOn p (c # cs) =
     (if p c then [] # splitOn p cs
      else (case splitOn p cs of [] \<Rightarrow> [[c]] | w # ws \<Rightarrow> (c # w) # ws))"

text \<open>\<open>xs.join(sep)\<close>\<close>

fun joinStr :: "jsstring \<Rightarrow> jsstring list \<Rightarrow> jsstring" where
  "joinStr sep [] = []"
| "joinStr sep [x] = x"
| "joinStr sep (x # y # ys) = x @ sep @ joinStr sep (y # ys)"

section \<open>Tag cleaning (handleRequest, the tag task)\<close>

text \<open>The delimiters the tag text is split on: comma, line feed, semicolon, pipe.\<close>

definition isTagDelimiter :: "nat \<Rightarrow> bool" where
  "isTagDelimiter c = (c = 44 \<or> c = 10 \<or> c = 59 \<or> c = 124)"

text \<open>\<open>rawTags\<close>: the pieces of the tag text, each trimmed.\<close>

definition rawTags :: "jsstring \<Rightarrow> jsstring list" where
  "rawTags tagsText = map trim (splitOn isTagDelimiter tagsText)"

text \<open>The character class of the first replace: asterisk, hyphen, bullet (U+2022),
  \<open>\d\<close>, full stop, closing parenthesis, closing bracket, closing brace, greater-than,
  double quote, apostrophe, backtick.\<close>

definition isPrefixChar :: "nat \<Rightarrow> bool" where
  "isPrefixChar c =
     (c = 42 \<or> c = 45 \<or> c = 8226 \<or> isDigit c \<or> c = 46 \<or> c = 41 \<or> c = 93 \<or> c = 125
      \<or> c = 62 \<or> c = 34 \<or> c = 39 \<or> c = 96)"

text \<open>The character class of the second replace: asterisk, double quote, apostrophe,
  backtick, opening bracket, opening brace, less-than, closing bracket, closing brace,
  greater-than.\<close>

definition isSuffixChar :: "nat \<Rightarrow> bool" where
  "isSuffixChar c =
     (c = 42 \<or> c = 34 \<or> c = 39 \<or> c = 96 \<or> c = 91 \<or> c = 123 \<or> c = 60 \<or> c = 93
      \<or> c = 125 \<or> c = 62)"

text \<open>The first replace, of a match of the class once or more and then \<open>\s*\<close> at the
  start of the string, by the empty string: when the string starts with a code unit of the class,
  the longest run of the class and the whitespace after it are removed.\<close>

definition stripPrefix :: "jsstring \<Rightarrow> jsstring" where
  "stripPrefix s =
     (case s of
        [] \<Rightarrow> []
      | c # cs \<Rightarrow>
          if isPrefixChar c then dropWhile isWhiteSpace (dropWhile isPrefixChar cs) else s)"

text \<open>The second replace, of a match of the class once or more at the end of the
  string, by the empty string: the run of the class that ends the string is removed.\<close>

definition stripSuffix :: "jsstring \<Rightarrow> jsstring" where
  "stripSuffix s = rev (dropWhile isSuffixChar (rev s))"

text \<open>The third replace: every code unit that is neither \<open>\w\<close> nor \<open>\s\<close> becomes a
  space.\<close>

definition replaceNonWord :: "jsstring \<Rightarrow> jsstring" where
  "replaceNonWord s = map (\<lambda>c. if isWordChar c \<or> isWhiteSpace c then c else 32) s"

text \<open>The fourth replace: every maximal run of whitespace becomes one space.\<close>

function collapseSpaces :: "jsstring \<Rightarrow> jsstring" where
  "collapseSpaces [] = []"
| "collapseSpaces (c # cs) =
     (if isWhiteSpace c then 32 # collapseSpaces (dropWhile isWhiteSpace cs)
      else c # collapseSpaces cs)"
  by pat_completeness auto
termination
proof (relation "measure length")
  show "wf (measure length)" by simp
next
  fix c :: nat and cs :: jsstring
  have "length (dropWhile isWhiteSpace cs) \<le> length cs" by (rule length_dropWhile_le)
  then show "(dropWhile isWhiteSpace cs, c # cs) \<in> measure length" by simp
next
  fix c :: nat and cs :: jsstring
  show "(cs, c # cs) \<in> measure length" by simp
qed

text \<open>The body of the \<open>.map\<close> over \<open>rawTags\<close>.\<close>

definition cleaned :: "jsstring \<Rightarrow> jsstring" where
  "cleaned tag = trim (collapseSpaces (replaceNonWord (stripSuffix (stripPrefix tag))))"

text \<open>The body of the \<open>.filter\<close>: \<open>wordCount\<close> is \<open>tag.split(' ').length\<close>.\<close>

definition wordCount :: "jsstring \<Rightarrow> nat" where
  "wordCount tag = length (splitOn (\<lambda>c. c = 32) tag)"

definition keepTag :: "jsstring \<Rightarrow> bool" where
  "keepTag tag = (length tag > 0 \<and> length tag \<le> 50 \<and> wordCount tag \<le> 2)"

text \<open>\<open>tags = rawTags.map(...).filter(...).slice(0, 20)\<close>\<close>

definition cleanTags :: "jsstring \<Rightarrow> jsstring list" where
  "cleanTags tagsText = take 20 (filter keepTag (map cleaned (rawTags tagsText)))"


text \<open>The number of whitespace-separated words of a string: the maximal runs of code units
  that are not whitespace. \<open>inWord\<close> tells whether the code unit before was part of a word.\<close>

fun wordsFrom :: "bool \<Rightarrow> jsstring \<Rightarrow> nat" where
  "wordsFrom inWord [] = 0"
| "wordsFrom inWord (c # cs) =
     (if isWhiteSpace c then wordsFrom False cs
      else (if inWord then 0 else 1) + wordsFrom True cs)"

definition whitespaceWords :: "jsstring \<Rightarrow> nat" where
  "whitespaceWords s = wordsFrom False s"

text \<open>No two whitespace code units stand side by side.\<close>

fun spaced :: "jsstring \<Rightarrow> bool" where
  "spaced [] = True"
| "spaced [c] = True"
| "spaced (c # d # r) = (\<not> (isWhiteSpace c \<and> isWhiteSpace d) \<and> spaced (d # r))"


section \<open>Multipart decoding (parseMultipartData)\<close>

text \<open>A \<open>Buffer\<close> is a sequence of bytes. \<open>buffer.toString("binary")\<close> gives the string
  with one code unit per byte, and \<open>Buffer.from(s, "binary")\<close> keeps the low eight bits of
  every code unit.\<close>

type_synonym buffer = "8 word list"

definition toBinaryString :: "buffer \<Rightarrow> jsstring" where
  "toBinaryString b = map unat b"

definition bufferFromBinary :: "jsstring \<Rightarrow> buffer" where
  "bufferFromBinary s = map of_nat s"

text \<open>\<open>s.includes(needle)\<close>\<close>

fun includesStr :: "jsstring \<Rightarrow> jsstring \<Rightarrow> bool" where
  "includesStr [] needle = (needle = [])"
| "includesStr (c # cs) needle = (prefix needle (c # cs) \<or> includesStr cs needle)"

text \<open>\<open>s.split(sep)\<close> for a string separator: the occurrences of \<open>sep\<close> are found from
  left to right without overlap; the empty separator splits into single code units.\<close>

fun splitStr :: "jsstring \<Rightarrow> jsstring \<Rightarrow> jsstring list" where
  "splitStr [] sep = (if sep = [] then [] else [[]])"
| "splitStr (c # cs) sep =
     (if sep = [] then [c] # splitStr cs sep
      else if prefix sep (c # cs) then [] # splitStr (drop (length sep - 1) cs) sep
      else (case splitStr cs sep of [] \<Rightarrow> [[c]] | w # ws \<Rightarrow> (c # w) # ws))"

text \<open>A match of the regular expression \<open>key="([^"]+)"\<close> that starts at the first code
  unit of \<open>s\<close>: the text of its group. The group takes the longest run without a double
  quote (code unit 34), which must be non-empty and followed by a double quote.\<close>

definition attrAt :: "jsstring \<Rightarrow> jsstring \<Rightarrow> jsstring option" where
  "attrAt key s =
     (if prefix (key @ [61, 34]) s then
        (let r = drop (length key + 2) s;
             v = takeWhile (\<lambda>c. c \<noteq> 34) r
         in if v \<noteq> [] \<and> length v < length r then Some v else None)
      else None)"

text \<open>\<open>s.match(re)\<close> for that regular expression: the group of the leftmost match, or
  \<open>None\<close> for \<open>null\<close>.\<close>

fun matchAttr :: "jsstring \<Rightarrow> jsstring \<Rightarrow> jsstring option" where
  "matchAttr key [] = None"
| "matchAttr key (c # cs) =
     (case attrAt key (c # cs) of Some v \<Rightarrow> Some v | None \<Rightarrow> matchAttr key cs)"

text \<open>The replace of a carriage return and line feed at the very end of the string by the
  empty string.\<close>

definition removeFinalCRLF :: "jsstring \<Rightarrow> jsstring" where
  "removeFinalCRLF s = (if prefix [10, 13] (rev s) then take (length s - 2) s else s)"

definition CRLF :: jsstring where
  "CRLF = [13, 10]"

text \<open>The result \<open>{ fields, files }\<close>.\<close>

record DecodedForm =
  formFields :: "jsstring \<rightharpoonup> jsstring"
  formFiles :: "jsstring \<rightharpoonup> buffer"


text \<open>The body of the loop over the parts. \<open>fields\<close> and \<open>files\<close> are plain objects: an
  assignment to their key \<open>__proto__\<close> adds no entry (a string is ignored by the setter of
  the prototype, a \<open>Buffer\<close> becomes the prototype of \<open>files\<close>, which has none of the keys
  that the handler reads).\<close>

definition addPart :: "DecodedForm \<Rightarrow> jsstring \<Rightarrow> DecodedForm" where
  "addPart form part =
     (if includesStr part (js ''Content-Disposition: form-data'') then
        (case splitStr part (CRLF @ CRLF) of
           [] \<Rightarrow> form
         | headers # rest \<Rightarrow>
             (let content = trim (joinStr (CRLF @ CRLF) rest) in
              case matchAttr (js ''name'') headers of
                None \<Rightarrow> form
              | Some fieldName \<Rightarrow>
                  if fieldName = js ''__proto__'' then form
                  else
                    (case matchAttr (js ''filename'') headers of
                       Some filename \<Rightarrow>
                         form\<lparr>formFiles := (formFiles form)(fieldName \<mapsto>
                                  bufferFromBinary (removeFinalCRLF content))\<rparr>
                     | None \<Rightarrow>
                         form\<lparr>formFields := (formFields form)(fieldName \<mapsto>
                                  removeFinalCRLF content)\<rparr>)))
      else form)"

text \<open>A thrown \<open>Error\<close> with its message.\<close>

datatype error = Error jsstring

text \<open>\<open>req.headers["content-type"]?.split("boundary=")[1]\<close>; \<open>None\<close> is \<open>undefined\<close>.\<close>

definition boundaryOf :: "jsstring option \<Rightarrow> jsstring option" where
  "boundaryOf contentType =
     (case contentType of
        None \<Rightarrow> None
      | Some ct \<Rightarrow>
          (case splitStr ct (js ''boundary='') of
             a # b # others \<Rightarrow> Some b
           | _ \<Rightarrow> None))"

text \<open>\<open>parseMultipartData\<close>, from the content-type header of the request and the bytes
  of its body; \<open>Inl\<close> is the rejected promise. \<open>!boundary\<close> holds for \<open>undefined\<close> and
  for the empty string.\<close>

definition parseMultipartData :: "jsstring option \<Rightarrow> buffer \<Rightarrow> error + DecodedForm" where
  "parseMultipartData contentType buf =
     (case boundaryOf contentType of
        None \<Rightarrow> Inl (Error (js ''No boundary found in content-type''))
      | Some boundary \<Rightarrow>
          if boundary = [] then Inl (Error (js ''No boundary found in content-type''))
          else Inr (foldl addPart \<lparr>formFields = Map.empty, formFiles = Map.empty\<rparr>
                      (splitStr (toBinaryString buf) (js ''--'' @ boundary))))"


section \<open>The process endpoint (handleRequest)\<close>

text \<open>The environment configuration, read once at startup.\<close>

record Config =
  PROVIDER :: jsstring
  MODEL :: "jsstring option"
  DESCRIPTION_PROMPT :: "jsstring option"
  TAG_PROMPT :: "jsstring option"
  TASKS :: "jsstring list"

text \<open>The argument and the result of \<open>getDescriptionWithUsage\<close> and \<open>getTagsWithUsage\<close>.
  The two functions belong to the provider module, which the handler imports; they are
  parameters of the model, and \<open>Inl\<close> is a call that throws. \<open>None\<close> is \<open>undefined\<close>:
  \<open>totalTokens\<close> stands for \<open>usage?.totalTokens\<close>.\<close>

record GenerationRequest =
  genBuffer :: buffer
  genModel :: "jsstring option"
  genPrompt :: jsstring
  genProvider :: jsstring

record GenerationResult =
  genText :: "jsstring option"
  totalTokens :: "nat option"

type_synonym generator = "GenerationRequest \<Rightarrow> error + GenerationResult"

text \<open>\<open>x || y\<close> for a string \<open>x\<close> that may be \<open>undefined\<close>: \<open>undefined\<close> and the empty
  string are falsy.\<close>

definition orElse :: "jsstring option \<Rightarrow> jsstring \<Rightarrow> jsstring" where
  "orElse x y = (case x of None \<Rightarrow> y | Some s \<Rightarrow> if s = [] then y else s)"

definition orUndefined :: "jsstring option \<Rightarrow> jsstring option \<Rightarrow> jsstring option" where
  "orUndefined x y = (case x of None \<Rightarrow> y | Some s \<Rightarrow> if s = [] then y else Some s)"

text \<open>\<open>n || 0\<close> for a token count that may be \<open>undefined\<close>.\<close>

definition orZero :: "nat option \<Rightarrow> nat" where
  "orZero n = (case n of None \<Rightarrow> 0 | Some k \<Rightarrow> k)"

text \<open>The configuration of one request: the form fields override the environment.\<close>

definition requestTasks :: "Config \<Rightarrow> (jsstring \<rightharpoonup> jsstring) \<Rightarrow> jsstring list" where
  "requestTasks cfg flds =
     (case flds (js ''tasks'') of
        None \<Rightarrow> TASKS cfg
      | Some t \<Rightarrow> if t = [] then TASKS cfg else splitStr t (js '',''))"

definition requestProvider :: "Config \<Rightarrow> (jsstring \<rightharpoonup> jsstring) \<Rightarrow> jsstring" where
  "requestProvider cfg flds = orElse (flds (js ''provider'')) (PROVIDER cfg)"

definition requestModel :: "Config \<Rightarrow> (jsstring \<rightharpoonup> jsstring) \<Rightarrow> jsstring option" where
  "requestModel cfg flds = orUndefined (flds (js ''model'')) (MODEL cfg)"

definition requestDescriptionPrompt :: "Config \<Rightarrow> (jsstring \<rightharpoonup> jsstring) \<Rightarrow> jsstring option" where
  "requestDescriptionPrompt cfg flds =
     orUndefined (flds (js ''descriptionPrompt'')) (DESCRIPTION_PROMPT cfg)"

definition requestTagPrompt :: "Config \<Rightarrow> (jsstring \<rightharpoonup> jsstring) \<Rightarrow> jsstring option" where
  "requestTagPrompt cfg flds = orUndefined (flds (js ''tagPrompt'')) (TAG_PROMPT cfg)"

text \<open>The arguments of the two generation calls.\<close>

definition descriptionRequest ::
  "Config \<Rightarrow> (jsstring \<rightharpoonup> jsstring) \<Rightarrow> buffer \<Rightarrow> GenerationRequest" where
  "descriptionRequest cfg flds imageBufferForAI =
     \<lparr>genBuffer = imageBufferForAI,
      genModel = requestModel cfg flds,
      genPrompt = orElse (requestDescriptionPrompt cfg flds) (js ''Describe this image in detail.''),
      genProvider = requestProvider cfg flds\<rparr>"

definition tagRequest ::
  "Config \<Rightarrow> (jsstring \<rightharpoonup> jsstring) \<Rightarrow> buffer \<Rightarrow> GenerationRequest" where
  "tagRequest cfg flds imageBufferForAI =
     \<lparr>genBuffer = imageBufferForAI,
      genModel = requestModel cfg flds,
      genPrompt = orElse (requestTagPrompt cfg flds)
        (js ''Output only the most relevant one or two word tags separated by commas. ''
         @ js ''No text before or after. Example: mountain, sky, night, stars''),
      genProvider = requestProvider cfg flds\<rparr>"

text \<open>The token counts are JavaScript numbers, that is doubles. A count that a provider
  reports is a whole number that is not negative; the total is built with \<open>+=\<close>, whose
  result is the exact sum rounded to the nearest double, ties to the even significand.
  \<open>Num n\<close> is the double of the whole number \<open>n\<close>, \<open>PosInfinity\<close> is \<open>Infinity\<close>.\<close>

datatype number = Num nat | PosInfinity

text \<open>The number of low bits that a whole number loses when it is cut to the 53 bits of a
  significand: the least \<open>e\<close>, from \<open>e\<close> on, with \<open>n div 2 ^ e < 2 ^ 53\<close>.\<close>

function dropBits :: "nat \<Rightarrow> nat \<Rightarrow> nat" where
  "dropBits e n = (if n div 2 ^ e < 2 ^ 53 then e else dropBits (Suc e) n)"
  by pat_completeness auto
termination
proof (relation "measure (\<lambda>(e, n). n - e)")
  show "wf (measure (\<lambda>(e, n). n - e))" by simp
next
  fix e n :: nat
  assume a: "\<not> n div 2 ^ e < 2 ^ 53"
  have "n div 2 ^ e \<noteq> 0" using a by auto
  then have "(2::nat) ^ e \<le> n" by (simp add: div_eq_0_iff)
  moreover have "e < (2::nat) ^ e" by (rule less_exp)
  ultimately have "e < n" by linarith
  then show "((Suc e, n), (e, n)) \<in> measure (\<lambda>(e, n). n - e)" by simp
qed

declare dropBits.simps [simp del]

text \<open>The double nearest to a whole number. Every whole number up to \<open>2 ^ 53\<close> is a double.
  Above, the low \<open>e\<close> bits are rounded away, to the nearest multiple of \<open>2 ^ e\<close> and on a
  tie to the one with the even significand; from \<open>2 ^ 1024 - 2 ^ 970\<close> on the result is
  \<open>Infinity\<close>.\<close>

definition roundToDouble :: "nat \<Rightarrow> number" where
  "roundToDouble n =
     (if n \<le> 2 ^ 53 then Num n
      else if 2 ^ 1024 - 2 ^ 970 \<le> n then PosInfinity
      else
        (let e = dropBits 0 n; q = n div 2 ^ e; r = n mod 2 ^ e
         in if 2 ^ e < 2 * r \<or> (2 * r = 2 ^ e \<and> odd q)
            then Num ((q + 1) * 2 ^ e)
            else Num (q * 2 ^ e)))"

text \<open>\<open>x += b\<close> for a total \<open>x\<close> and a count \<open>b\<close>, and the test \<open>x > 0\<close>.\<close>

definition jsAdd :: "number \<Rightarrow> nat \<Rightarrow> number" where
  "jsAdd x b = (case x of PosInfinity \<Rightarrow> PosInfinity | Num a \<Rightarrow> roundToDouble (a + b))"

definition isPositive :: "number \<Rightarrow> bool" where
  "isPositive x = (case x of PosInfinity \<Rightarrow> True | Num a \<Rightarrow> 0 < a)"

text \<open>The local variables that the two tasks assign.\<close>

record Locals =
  curDescription :: jsstring
  curTags :: "jsstring list"
  curRawTagsText :: "jsstring option"
  totalTokensUsed :: number
  descriptionTokens :: nat
  tagsTokens :: nat

definition initialLocals :: Locals where
  "initialLocals =
     \<lparr>curDescription = [], curTags = [], curRawTagsText = Some [],
      totalTokensUsed = Num 0, descriptionTokens = 0, tagsTokens = 0\<rparr>"

text \<open>The \<open>try\<close> block of the description task: a call that throws is caught and leaves
  the variables as they are.\<close>

definition descriptionTask :: "generator \<Rightarrow> GenerationRequest \<Rightarrow> Locals \<Rightarrow> Locals" where
  "descriptionTask getDescriptionWithUsage request st =
     (case getDescriptionWithUsage request of
        Inl e \<Rightarrow> st
      | Inr descResult \<Rightarrow>
          st\<lparr>curDescription := orElse (genText descResult) [],
             descriptionTokens := orZero (totalTokens descResult),
             totalTokensUsed := jsAdd (totalTokensUsed st) (orZero (totalTokens descResult))\<rparr>)"

text \<open>The \<open>try\<close> block of the tag task. The raw text and the token counts are assigned
  before the text is split; when the text is \<open>undefined\<close> the split throws, the error is
  caught and the tags stay as they are.\<close>

definition tagTask :: "generator \<Rightarrow> GenerationRequest \<Rightarrow> Locals \<Rightarrow> Locals" where
  "tagTask getTagsWithUsage request st =
     (case getTagsWithUsage request of
        Inl e \<Rightarrow> st
      | Inr tagsResult \<Rightarrow>
          (let st1 = st\<lparr>curRawTagsText := genText tagsResult,
                         tagsTokens := orZero (totalTokens tagsResult),
                         totalTokensUsed :=
                           jsAdd (totalTokensUsed st) (orZero (totalTokens tagsResult))\<rparr>
           in case genText tagsResult of
                None \<Rightarrow> st1
              | Some tagsText \<Rightarrow> st1\<lparr>curTags := cleanTags tagsText\<rparr>))"

text \<open>The JSON object of the success response; \<open>tokenUsage\<close> is spread into it only when
  the total is positive, and a property whose value is \<open>undefined\<close> is left out.\<close>

record TokenUsage =
  usageDescription :: nat
  usageTags :: nat
  usageTotal :: number

record ProcessResult =
  success :: bool
  description :: jsstring
  tags :: "jsstring list"
  rawTagsText :: "jsstring option"
  provider :: jsstring
  model :: jsstring
  tasks :: "jsstring list"
  tokenUsage :: "TokenUsage option"

text \<open>From the override of the configuration to \<open>sendResponse(res, 200, ...)\<close>.\<close>

definition processTasks ::
  "Config \<Rightarrow> generator \<Rightarrow> generator \<Rightarrow> (jsstring \<rightharpoonup> jsstring) \<Rightarrow> buffer \<Rightarrow> ProcessResult" where
  "processTasks cfg getDescriptionWithUsage getTagsWithUsage flds imageBufferForAI =
     (let st1 = (if js ''description'' \<in> set (requestTasks cfg flds)
                 then descriptionTask getDescriptionWithUsage
                        (descriptionRequest cfg flds imageBufferForAI) initialLocals
                 else initialLocals);
          st2 = (if js ''tag'' \<in> set (requestTasks cfg flds)
                    \<or> js ''tags'' \<in> set (requestTasks cfg flds)
                 then tagTask getTagsWithUsage (tagRequest cfg flds imageBufferForAI) st1
                 else st1)
      in \<lparr>success = True,
          description = curDescription st2,
          tags = curTags st2,
          rawTagsText = curRawTagsText st2,
          provider = requestProvider cfg flds,
          model = orElse (requestModel cfg flds) (js ''default''),
          tasks = requestTasks cfg flds,
          tokenUsage =
            (if isPositive (totalTokensUsed st2)
             then Some \<lparr>usageDescription = descriptionTokens st2,
                        usageTags = tagsTokens st2,
                        usageTotal = totalTokensUsed st2\<rparr>
             else None)\<rparr>)"

text \<open>A response: the status code and the JSON body, which is the success object or
  \<open>{ error: message }\<close>.\<close>

datatype responseBody = Processed ProcessResult | Failed jsstring

text \<open>The branch of \<open>handleRequest\<close> for \<open>POST /process\<close>, from the content-type header
  and the body of the request. \<open>tempFile\<close> stands for the file system and the module
  loader between the decoding and the tasks: the image is written to a temporary file,
  the provider module is imported and the file is read back; \<open>Inl\<close> is a step that throws,
  which the outer \<open>catch\<close> answers with status 500.\<close>

definition handleProcess ::
  "Config \<Rightarrow> (buffer \<Rightarrow> error + buffer) \<Rightarrow> generator \<Rightarrow> generator
     \<Rightarrow> jsstring option \<Rightarrow> buffer \<Rightarrow> nat \<times> responseBody" where
  "handleProcess cfg tempFile getDescriptionWithUsage getTagsWithUsage contentTypeHeader body =
     (if \<not> includesStr (orElse contentTypeHeader []) (js ''multipart/form-data'')
      then (400, Failed (js ''Content-Type must be multipart/form-data''))
      else
        (case parseMultipartData contentTypeHeader body of
           Inl e \<Rightarrow> (500, Failed (js ''Internal server error''))
         | Inr form \<Rightarrow>
             (case formFiles form (js ''image'') of
                None \<Rightarrow>
                  (400, Failed (js ''No image file provided in '' @ [39] @ js ''image''
                                  @ [39] @ js '' field''))
              | Some imageBuffer \<Rightarrow>
                  (case tempFile imageBuffer of
                     Inl e \<Rightarrow> (500, Failed (js ''Internal server error''))
                   | Inr imageBufferForAI \<Rightarrow>
                       (200, Processed (processTasks cfg getDescriptionWithUsage
                          getTagsWithUsage (formFields form) imageBufferForAI))))))"


section \<open>The merge policy and the library entry point (execute)\<close>

text \<open>Modelled from the spec: the metadata document of section 3. \<open>execute\<close> and the
  code it calls (\<open>index.js\<close>) are not among the source files, only the tests of
  \<open>execute\<close> are. A document gives every field name the value that the metadata store
  reads for it, or \<open>None\<close> when it reads none.\<close>

type_synonym MetadataDocument = "jsstring \<rightharpoonup> jsstring"

text \<open>Modelled from the spec: "a non-empty value" of section 4.4, for a field of a
  document that \<open>execute\<close> reads (its code is missing). A field without a prior value
  reads as the blank placeholder of the metadata store (section 4.4; 31 spaces in the image
  of the tests), and section 8 calls such a field empty: a value is non-empty when it
  holds a code unit that is not whitespace.\<close>

definition nonEmptyValue :: "jsstring option \<Rightarrow> bool" where
  "nonEmptyValue v = (case v of None \<Rightarrow> False | Some x \<Rightarrow> trim x \<noteq> [])"

text \<open>Modelled from the spec: the merge policy of section 4.4 for one targeted field,
  which is part of the missing \<open>execute\<close>. Without a generated text the field keeps its
  value. With \<open>avoidOverwrite\<close> a field that holds a non-empty value is left untouched and
  every other field is set to the generated text; without it the field is set to the
  generated text unconditionally.\<close>

definition mergeField :: "jsstring option \<Rightarrow> bool \<Rightarrow> jsstring option \<Rightarrow> jsstring option" where
  "mergeField generated avoidOverwrite existing =
     (case generated of
        None \<Rightarrow> existing
      | Some g \<Rightarrow> if avoidOverwrite \<and> nonEmptyValue existing then existing else Some g)"

text \<open>Modelled from the spec: \<open>merge(document, generatedDescription?, avoidOverwrite)\<close> of
  section 4.4, part of the missing \<open>execute\<close>: a pure transform of the targeted fields
  (the \<open>descriptionTags\<close> of the options); every other field is kept.\<close>

definition merge ::
  "jsstring list \<Rightarrow> MetadataDocument \<Rightarrow> jsstring option \<Rightarrow> bool \<Rightarrow> MetadataDocument" where
  "merge targets document generated avoidOverwrite =
     (\<lambda>field. if field \<in> set targets
              then mergeField generated avoidOverwrite (document field)
              else document field)"

text \<open>Modelled from the spec: the options of the library invocation (section 6) that the
  pipeline of the missing \<open>execute\<close> depends on. The spec names neither the slot of the tags
  nor their delimiter: both are options here.\<close>

record ExecuteOptions =
  optProvider :: jsstring
  optModel :: "jsstring option"
  descriptionTags :: "jsstring list"
  tagSlot :: jsstring
  tagDelimiter :: jsstring
  descriptionPrompt :: jsstring
  tagPrompt :: jsstring
  optTasks :: "jsstring list"
  avoidOverwrite :: bool
  dry :: bool

text \<open>Modelled from the spec: the outcome of one task of the missing \<open>execute\<close> (section
  4.5): a task that is not requested, a generation that fails and an empty output all
  give no generated value.\<close>

definition generatedText ::
  "bool \<Rightarrow> generator \<Rightarrow> GenerationRequest \<Rightarrow> jsstring option" where
  "generatedText requested generate request =
     (if requested then
        (case generate request of
           Inl e \<Rightarrow> None
         | Inr r \<Rightarrow> (case genText r of None \<Rightarrow> None | Some x \<Rightarrow> if x = [] then None else Some x))
      else None)"

text \<open>Modelled from the spec: the missing \<open>execute\<close>, as the pipeline of sections 4.4 and
  4.5 on one document: both tasks are dispatched, the tag text is normalized and joined,
  the description is merged into the description-bearing fields and the tags into their
  slot under the same policy, and the merged document is persisted unless the mode is dry.
  The result is the pair of the would-be document and the document after the call.\<close>

definition execute ::
  "ExecuteOptions \<Rightarrow> generator \<Rightarrow> generator \<Rightarrow> buffer \<Rightarrow> MetadataDocument
     \<Rightarrow> MetadataDocument \<times> MetadataDocument" where
  "execute opts generateDescription generateTags imageBytes document =
     (let describe =
            generatedText (js ''description'' \<in> set (optTasks opts)) generateDescription
              \<lparr>genBuffer = imageBytes, genModel = optModel opts,
               genPrompt = descriptionPrompt opts, genProvider = optProvider opts\<rparr>;
          tagText =
            generatedText (js ''tag'' \<in> set (optTasks opts)) generateTags
              \<lparr>genBuffer = imageBytes, genModel = optModel opts,
               genPrompt = tagPrompt opts, genProvider = optProvider opts\<rparr>;
          tagSet = (case tagText of None \<Rightarrow> [] | Some x \<Rightarrow> cleanTags x);
          joined = (if tagSet = [] then None else Some (joinStr (tagDelimiter opts) tagSet));
          merged =
            merge [tagSlot opts]
              (merge (descriptionTags opts) document describe (avoidOverwrite opts))
              joined (avoidOverwrite opts)
      in (merged, if dry opts then document else merged))"


section \<open>Evaluation\<close>

lemmas charClass_defs =
  isWhiteSpace_def isDigit_def isWordChar_def isTagDelimiter_def isPrefixChar_def
  isSuffixChar_def

lemmas cleanTags_defs =
  cleanTags_def rawTags_def trim_def cleaned_def stripPrefix_def stripSuffix_def
  replaceNonWord_def keepTag_def wordCount_def


lemmas multipart_defs =
  parseMultipartData_def boundaryOf_def addPart_def toBinaryString_def bufferFromBinary_def
  attrAt_def removeFinalCRLF_def CRLF_def trim_def isWhiteSpace_def js_def

section \<open>Properties of the string operations\<close>

lemma splitOn_nonempty: "splitOn p s \<noteq> []"
  by (induction s) (auto split: list.splits)

lemma collapseSpaces_space:
  "c \<in> set (collapseSpaces s) \<Longrightarrow> isWhiteSpace c \<Longrightarrow> c = 32"
  by (induction s rule: collapseSpaces.induct) (auto split: if_splits)

lemma set_trim: "c \<in> set (trim s) \<Longrightarrow> c \<in> set s"
  unfolding trim_def by (auto dest!: set_dropWhileD)

lemma cleaned_space: "c \<in> set (cleaned r) \<Longrightarrow> isWhiteSpace c \<Longrightarrow> c = 32"
  unfolding cleaned_def by (blast dest: set_trim collapseSpaces_space)

lemma wordsFrom_splitOn:
  assumes "\<And>c. c \<in> set t \<Longrightarrow> isWhiteSpace c \<Longrightarrow> c = 32"
  shows "wordsFrom True t \<le> length (filter (\<lambda>w. w \<noteq> []) (tl (splitOn (\<lambda>c. c = 32) t)))
       \<and> wordsFrom False t \<le> length (filter (\<lambda>w. w \<noteq> []) (splitOn (\<lambda>c. c = 32) t))"
  using assms
proof (induction t)
  case Nil
  then show ?case by simp
next
  case (Cons c cs)
  have ih: "wordsFrom True cs \<le> length (filter (\<lambda>w. w \<noteq> []) (tl (splitOn (\<lambda>c. c = 32) cs)))"
    "wordsFrom False cs \<le> length (filter (\<lambda>w. w \<noteq> []) (splitOn (\<lambda>c. c = 32) cs))"
    using Cons by auto
  show ?case
  proof (cases "isWhiteSpace c")
    case True
    then have "c = 32" using Cons.prems by simp
    then show ?thesis using True ih by simp
  next
    case False
    then have ne: "c \<noteq> 32" by (auto simp: isWhiteSpace_def)
    obtain w ws where sp: "splitOn (\<lambda>c. c = 32) cs = w # ws"
      using splitOn_nonempty by (cases "splitOn (\<lambda>c. c = 32) cs") auto
    show ?thesis using False ne ih sp by simp
  qed
qed

lemma whitespaceWords_le_wordCount:
  assumes "\<And>c. c \<in> set t \<Longrightarrow> isWhiteSpace c \<Longrightarrow> c = 32"
  shows "whitespaceWords t \<le> wordCount t"
proof -
  have "wordsFrom False t \<le> length (filter (\<lambda>w. w \<noteq> []) (splitOn (\<lambda>c. c = 32) t))"
    using wordsFrom_splitOn [OF assms] by simp
  also have "\<dots> \<le> length (splitOn (\<lambda>c. c = 32) t)" by (rule length_filter_le)
  finally show ?thesis by (simp add: whitespaceWords_def wordCount_def)
qed

lemma in_cleanTags:
  assumes "t \<in> set (cleanTags raw)"
  shows "keepTag t \<and> (\<exists>r. t = cleaned r)"
proof -
  have "t \<in> set (filter keepTag (map cleaned (rawTags raw)))"
    using assms unfolding cleanTags_def by (rule in_set_takeD)
  then show ?thesis by auto
qed


lemma spaced_tl: "spaced (c # s) \<Longrightarrow> spaced s"
  by (cases s) auto

lemma spaced_drop: "spaced s \<Longrightarrow> spaced (drop n s)"
proof (induction n arbitrary: s)
  case 0
  then show ?case by simp
next
  case (Suc n)
  then show ?case by (cases s) (auto dest: spaced_tl)
qed

lemma spaced_take: "spaced s \<Longrightarrow> spaced (take n s)"
proof (induction s arbitrary: n rule: spaced.induct)
  case 1
  then show ?case by simp
next
  case (2 c)
  then show ?case by (cases n) auto
next
  case (3 c d r)
  show ?case
  proof (cases n)
    case 0
    then show ?thesis by simp
  next
    case (Suc m)
    have "spaced (take m (d # r))" using 3 by simp
    then show ?thesis using 3(2) Suc by (cases m) auto
  qed
qed

lemma trim_take_drop: "\<exists>a b. trim s = take a (drop b s)"
proof -
  let ?y = "dropWhile isWhiteSpace s"
  have y: "?y = drop (length (takeWhile isWhiteSpace s)) s" by (rule dropWhile_eq_drop)
  have "rev (dropWhile isWhiteSpace (rev ?y))
        = rev (drop (length (takeWhile isWhiteSpace (rev ?y))) (rev ?y))"
    by (simp add: dropWhile_eq_drop [symmetric])
  also have "\<dots> = take (length ?y - length (takeWhile isWhiteSpace (rev ?y))) ?y"
    by (simp add: rev_drop)
  finally have "trim s = take (length ?y - length (takeWhile isWhiteSpace (rev ?y))) ?y"
    by (simp add: trim_def)
  then show ?thesis using y by metis
qed

lemma spaced_trim: "spaced s \<Longrightarrow> spaced (trim s)"
  by (metis trim_take_drop spaced_take spaced_drop)

lemma hd_collapseSpaces:
  "s \<noteq> [] \<Longrightarrow> isWhiteSpace (hd (collapseSpaces s)) = isWhiteSpace (hd s)"
  by (cases s) (auto simp: isWhiteSpace_def)

lemma collapseSpaces_Nil: "(collapseSpaces s = []) = (s = [])"
  by (cases s) auto

lemma spaced_collapseSpaces: "spaced (collapseSpaces s)"
proof (induction s rule: collapseSpaces.induct)
  case 1
  then show ?case by simp
next
  case (2 c cs)
  show ?case
  proof (cases "isWhiteSpace c")
    case True
    let ?r = "dropWhile isWhiteSpace cs"
    have ih: "spaced (collapseSpaces ?r)" using 2 True by simp
    show ?thesis
    proof (cases "?r = []")
      case True
      then have "collapseSpaces (c # cs) = [32]"
        using \<open>isWhiteSpace c\<close> by (simp del: dropWhile_eq_Nil_conv)
      then show ?thesis by simp
    next
      case False
      then have "\<not> isWhiteSpace (hd ?r)" by (rule hd_dropWhile)
      then have nw: "\<not> isWhiteSpace (hd (collapseSpaces ?r))"
        using False by (simp add: hd_collapseSpaces)
      obtain d r where dr: "collapseSpaces ?r = d # r"
        using False collapseSpaces_Nil [of ?r] by (cases "collapseSpaces ?r") auto
      show ?thesis using True ih nw dr by simp
    qed
  next
    case False
    have ih: "spaced (collapseSpaces cs)" using 2 False by simp
    show ?thesis using False ih by (cases "collapseSpaces cs") auto
  qed
qed

lemma collapseSpaces_id:
  "spaced s \<Longrightarrow> (\<And>c. c \<in> set s \<Longrightarrow> isWhiteSpace c \<Longrightarrow> c = 32) \<Longrightarrow> collapseSpaces s = s"
proof (induction s rule: spaced.induct)
  case 1
  then show ?case by simp
next
  case (2 c)
  then show ?case by auto
next
  case (3 c d r)
  have ih: "collapseSpaces (d # r) = d # r" using 3 by simp
  show ?case
  proof (cases "isWhiteSpace c")
    case True
    then have "c = 32" "\<not> isWhiteSpace d" using 3 by auto
    then show ?thesis using True ih by simp
  next
    case False
    then show ?thesis using ih by simp
  qed
qed

lemma trim_id: "s \<noteq> [] \<Longrightarrow> \<not> isWhiteSpace (hd s) \<Longrightarrow> \<not> isWhiteSpace (last s) \<Longrightarrow> trim s = s"
proof -
  assume a: "s \<noteq> []" "\<not> isWhiteSpace (hd s)" "\<not> isWhiteSpace (last s)"
  have 1: "dropWhile isWhiteSpace s = s" using a by (simp add: dropWhile_eq_self_iff)
  have "dropWhile isWhiteSpace (rev s) = rev s"
    using a by (simp add: dropWhile_eq_self_iff hd_rev)
  then show ?thesis using 1 by (simp add: trim_def)
qed

lemma trim_ends:
  assumes "trim s \<noteq> []"
  shows "\<not> isWhiteSpace (hd (trim s)) \<and> \<not> isWhiteSpace (last (trim s))"
proof -
  let ?y = "dropWhile isWhiteSpace s"
  let ?z = "dropWhile isWhiteSpace (rev ?y)"
  have z: "?z \<noteq> []" using assms by (simp add: trim_def)
  then have y: "?y \<noteq> []" by (metis dropWhile.simps(1) rev.simps(1))
  have l: "\<not> isWhiteSpace (hd ?z)" using z by (rule hd_dropWhile)
  have hy: "\<not> isWhiteSpace (hd ?y)" using y by (rule hd_dropWhile)
  have "\<not> (\<forall>x\<in>set (rev ?y). isWhiteSpace x)"
    using z dropWhile_eq_Nil_conv [of isWhiteSpace "rev ?y"] by blast
  then obtain x where x: "x \<in> set (rev ?y)" "\<not> isWhiteSpace x" by blast
  have "last ?z = last (rev ?y)" using x by (rule dropWhile_last)
  also have "\<dots> = hd ?y" using y by (simp add: last_rev)
  finally have "hd (rev ?z) = hd ?y" using z by (simp add: hd_rev)
  moreover have "last (rev ?z) = hd ?z" using z by (simp add: last_rev)
  ultimately show ?thesis using l hy by (simp add: trim_def)
qed

lemma collapseSpaces_set:
  "c \<in> set (collapseSpaces s) \<Longrightarrow> c = 32 \<or> (c \<in> set s \<and> \<not> isWhiteSpace c)"
  by (induction s rule: collapseSpaces.induct) (auto split: if_splits dest: set_dropWhileD)

lemma cleaned_chars: "c \<in> set (cleaned r) \<Longrightarrow> isWordChar c \<or> c = 32"
proof -
  assume "c \<in> set (cleaned r)"
  then have "c \<in> set (collapseSpaces (replaceNonWord (stripSuffix (stripPrefix r))))"
    unfolding cleaned_def by (rule set_trim)
  then have "c = 32 \<or> (c \<in> set (replaceNonWord (stripSuffix (stripPrefix r))) \<and> \<not> isWhiteSpace c)"
    by (rule collapseSpaces_set)
  then show ?thesis by (auto simp: replaceNonWord_def split: if_splits)
qed

lemma cleaned_spaced: "spaced (cleaned r)"
  unfolding cleaned_def by (rule spaced_trim) (rule spaced_collapseSpaces)

lemma cleaned_ends:
  "cleaned r \<noteq> [] \<Longrightarrow> \<not> isWhiteSpace (hd (cleaned r)) \<and> \<not> isWhiteSpace (last (cleaned r))"
  unfolding cleaned_def by (rule trim_ends)

lemma wordChar_not_suffix: "isWordChar c \<Longrightarrow> \<not> isSuffixChar c"
  by (auto simp: isWordChar_def isSuffixChar_def isDigit_def)

lemma wordChar_not_prefix: "isWordChar c \<Longrightarrow> \<not> isDigit c \<Longrightarrow> \<not> isPrefixChar c"
  by (auto simp: isWordChar_def isPrefixChar_def isDigit_def)

lemma wordChar_not_delimiter: "isWordChar c \<or> c = 32 \<Longrightarrow> \<not> isTagDelimiter c"
  by (auto simp: isWordChar_def isTagDelimiter_def isDigit_def)

lemma space_is_whitespace: "isWhiteSpace 32"
  by (simp add: isWhiteSpace_def)

text \<open>A cleaned, kept tag whose first code unit is not a digit is a fixed point of the cleaning.\<close>

lemma cleaned_fixed:
  assumes ne: "cleaned r \<noteq> []" and nd: "\<not> isDigit (hd (cleaned r))"
  shows "cleaned (cleaned r) = cleaned r"
proof -
  let ?t = "cleaned r"
  have ch: "\<And>c. c \<in> set ?t \<Longrightarrow> isWordChar c \<or> c = 32" by (rule cleaned_chars)
  have ends: "\<not> isWhiteSpace (hd ?t)" "\<not> isWhiteSpace (last ?t)" using cleaned_ends [OF ne] by auto
  have "hd ?t \<in> set ?t" "last ?t \<in> set ?t" using ne by auto
  then have hw: "isWordChar (hd ?t)" and lw: "isWordChar (last ?t)"
    using ch ends space_is_whitespace by metis+
  have p: "stripPrefix ?t = ?t"
    using ne wordChar_not_prefix [OF hw nd] by (cases ?t) (auto simp: stripPrefix_def)
  have "dropWhile isSuffixChar (rev ?t) = rev ?t"
    using ne wordChar_not_suffix [OF lw] by (simp add: dropWhile_eq_self_iff hd_rev)
  then have s: "stripSuffix ?t = ?t" by (simp add: stripSuffix_def)
  have "\<And>c. c \<in> set ?t \<Longrightarrow> isWordChar c \<or> isWhiteSpace c"
    using ch space_is_whitespace by auto
  then have n: "replaceNonWord ?t = ?t" by (simp add: replaceNonWord_def map_idI)
  have c: "collapseSpaces ?t = ?t"
    by (rule collapseSpaces_id) (use cleaned_spaced cleaned_space in auto)
  have t: "trim ?t = ?t" using ne ends by (rule trim_id)
  have "cleaned ?t = trim (collapseSpaces (replaceNonWord (stripSuffix (stripPrefix ?t))))"
    by (simp only: cleaned_def)
  then show ?thesis using p s n c t by simp
qed

lemma splitOn_none: "(\<And>c. c \<in> set x \<Longrightarrow> \<not> p c) \<Longrightarrow> splitOn p x = [x]"
  by (induction x) auto

lemma splitOn_append:
  "(\<And>c. c \<in> set x \<Longrightarrow> \<not> p c) \<Longrightarrow> p d \<Longrightarrow> splitOn p (x @ d # rest) = x # splitOn p rest"
  by (induction x) auto

lemma splitOn_joinStr:
  "L \<noteq> [] \<Longrightarrow> (\<And>t c. t \<in> set L \<Longrightarrow> c \<in> set t \<Longrightarrow> \<not> p c) \<Longrightarrow> p d
     \<Longrightarrow> splitOn p (joinStr [d] L) = L"
proof (induction "[d]" L rule: joinStr.induct)
  case 1
  then show ?case by simp
next
  case (2 x)
  then show ?case by (simp add: splitOn_none)
next
  case (3 x y ys)
  have "\<And>t c. t \<in> set (y # ys) \<Longrightarrow> c \<in> set t \<Longrightarrow> \<not> p c"
    using "3.prems"(2) by (meson list.set_intros(2))
  then have "splitOn p (joinStr [d] (y # ys)) = y # ys"
    using "3.hyps" "3.prems"(3) by blast
  moreover have "splitOn p (x @ d # joinStr [d] (y # ys)) = x # splitOn p (joinStr [d] (y # ys))"
    by (rule splitOn_append) (use "3.prems" in auto)
  ultimately show ?case by simp
qed

lemma cleanTags_empty_text: "cleanTags [] = []"
  by (simp add: cleanTags_defs charClass_defs)


section \<open>The multipart decoder\<close>







text \<open>
  C1 (the code at a failing input). A body with the boundary \<open>B\<close> carries one file part,
  named \<open>image\<close>, whose payload is the three bytes 65, 66, 32. The decoder returns the two
  bytes 65, 66 for it: \<open>trim()\<close> strips the whitespace byte that ends the payload together
  with the line terminator of the framing, before the replace of one final line terminator
  is applied.
\<close>

theorem C1_file_bytes_trimmed:
  "(case parseMultipartData (Some (js ''multipart/form-data; boundary=B''))
     (bufferFromBinary (js ''--B'' @ CRLF
      @ js ''Content-Disposition: form-data; name='' @ [34] @ js ''image'' @ [34]
      @ js ''; filename='' @ [34] @ js ''a.bin'' @ [34] @ CRLF @ CRLF
      @ [65, 66, 32] @ CRLF @ js ''--B--'' @ CRLF))
   of Inl e \<Rightarrow> None | Inr form \<Rightarrow> formFiles form (js ''image'')) = Some [65, 66]"
  by (simp add: multipart_defs)






text \<open>
  C8 (the code at a failing input). A part whose only attribute is \<open>filename="a.jpg"\<close>
  has no name attribute; the expression for the name matches inside \<open>filename="a.jpg"\<close>,
  and the part is stored as a file under the key \<open>a.jpg\<close>.
\<close>

theorem C8_filename_taken_as_name:
  "(case parseMultipartData (Some (js ''multipart/form-data; boundary=B''))
     (bufferFromBinary (js ''--B'' @ CRLF
      @ js ''Content-Disposition: form-data; filename='' @ [34] @ js ''a.jpg'' @ [34] @ CRLF @ CRLF
      @ [65, 66] @ CRLF @ js ''--B--'' @ CRLF))
   of Inl e \<Rightarrow> None | Inr form \<Rightarrow> formFiles form (js ''a.jpg'')) = Some [65, 66]"
  by (simp add: multipart_defs)

section \<open>The process endpoint\<close>

lemmas request_defs =
  requestTasks_def requestProvider_def requestModel_def requestDescriptionPrompt_def
  requestTagPrompt_def descriptionRequest_def tagRequest_def orElse_def orUndefined_def
  orZero_def

lemma descriptionTask_fields:
  "curDescription (descriptionTask g request st)
     = (case g request of Inl e \<Rightarrow> curDescription st | Inr r \<Rightarrow> orElse (genText r) [])"
  "curTags (descriptionTask g request st) = curTags st"
  "curRawTagsText (descriptionTask g request st) = curRawTagsText st"
  "descriptionTokens (descriptionTask g request st)
     = (case g request of Inl e \<Rightarrow> descriptionTokens st | Inr r \<Rightarrow> orZero (totalTokens r))"
  "tagsTokens (descriptionTask g request st) = tagsTokens st"
  "totalTokensUsed (descriptionTask g request st)
     = (case g request of
          Inl e \<Rightarrow> totalTokensUsed st
        | Inr r \<Rightarrow> jsAdd (totalTokensUsed st) (orZero (totalTokens r)))"
  by (simp_all add: descriptionTask_def split: sum.splits)

lemma tagTask_fields:
  "curDescription (tagTask g request st) = curDescription st"
  "curTags (tagTask g request st)
     = (case g request of
          Inl e \<Rightarrow> curTags st
        | Inr r \<Rightarrow> (case genText r of None \<Rightarrow> curTags st | Some tagsText \<Rightarrow> cleanTags tagsText))"
  "descriptionTokens (tagTask g request st) = descriptionTokens st"
  "tagsTokens (tagTask g request st)
     = (case g request of Inl e \<Rightarrow> tagsTokens st | Inr r \<Rightarrow> orZero (totalTokens r))"
  "totalTokensUsed (tagTask g request st)
     = (case g request of
          Inl e \<Rightarrow> totalTokensUsed st
        | Inr r \<Rightarrow> jsAdd (totalTokensUsed st) (orZero (totalTokens r)))"
  by (simp_all add: tagTask_def Let_def split: sum.splits option.splits)


text \<open>
  C6. A request that is decoded, carries an image and asks for both tasks (the tag task
  under the name \<open>tag\<close> or \<open>tags\<close>) is answered with
  status 200 and \<open>success = true\<close> whatever the two generation calls do. The description of
  the response depends on the description call alone and the tags on the tag call alone:
  a call that throws gives the empty description, or the empty tag list, and leaves the
  result of the other call as it is. When both calls throw, as for an unknown provider,
  the description is empty and the tag list is empty.
\<close>

theorem C6_task_failures_isolated:
  assumes ct: "includesStr (orElse contentTypeHeader []) (js ''multipart/form-data'')"
    and parse: "parseMultipartData contentTypeHeader body = Inr form"
    and img: "formFiles form (js ''image'') = Some imageBuffer"
    and io: "tempFile imageBuffer = Inr imageBufferForAI"
    and d: "js ''description'' \<in> set (requestTasks cfg (formFields form))"
    and t: "js ''tag'' \<in> set (requestTasks cfg (formFields form))
            \<or> js ''tags'' \<in> set (requestTasks cfg (formFields form))"
  shows "\<exists>resp.
      handleProcess cfg tempFile getDescriptionWithUsage getTagsWithUsage contentTypeHeader body
        = (200, Processed resp)
      \<and> success resp
      \<and> description resp
          = (case getDescriptionWithUsage
                    (descriptionRequest cfg (formFields form) imageBufferForAI) of
               Inl e \<Rightarrow> []
             | Inr r \<Rightarrow> orElse (genText r) [])
      \<and> tags resp
          = (case getTagsWithUsage (tagRequest cfg (formFields form) imageBufferForAI) of
               Inl e \<Rightarrow> []
             | Inr r \<Rightarrow> (case genText r of None \<Rightarrow> [] | Some tagsText \<Rightarrow> cleanTags tagsText))
      \<and> ((\<exists>e. getDescriptionWithUsage
                  (descriptionRequest cfg (formFields form) imageBufferForAI) = Inl e)
           \<and> (\<exists>e. getTagsWithUsage (tagRequest cfg (formFields form) imageBufferForAI) = Inl e)
          \<longrightarrow> description resp = [] \<and> tags resp = [])"
proof -
  let ?resp = "processTasks cfg getDescriptionWithUsage getTagsWithUsage (formFields form)
                 imageBufferForAI"
  have h: "handleProcess cfg tempFile getDescriptionWithUsage getTagsWithUsage
             contentTypeHeader body = (200, Processed ?resp)"
    using ct parse img io by (simp add: handleProcess_def)
  have s: "success ?resp" by (simp add: processTasks_def Let_def)
  have de: "description ?resp
          = (case getDescriptionWithUsage
                    (descriptionRequest cfg (formFields form) imageBufferForAI) of
               Inl e \<Rightarrow> []
             | Inr r \<Rightarrow> orElse (genText r) [])"
    using d t
    by (simp add: processTasks_def Let_def tagTask_fields descriptionTask_fields
        initialLocals_def split: sum.splits option.splits)
  have ta: "tags ?resp
          = (case getTagsWithUsage (tagRequest cfg (formFields form) imageBufferForAI) of
               Inl e \<Rightarrow> []
             | Inr r \<Rightarrow> (case genText r of None \<Rightarrow> [] | Some tagsText \<Rightarrow> cleanTags tagsText))"
    using d t
    by (simp add: processTasks_def Let_def tagTask_fields descriptionTask_fields
        initialLocals_def split: sum.splits option.splits)
  have both: "(\<exists>e. getDescriptionWithUsage
                  (descriptionRequest cfg (formFields form) imageBufferForAI) = Inl e)
           \<and> (\<exists>e. getTagsWithUsage (tagRequest cfg (formFields form) imageBufferForAI) = Inl e)
          \<longrightarrow> description ?resp = [] \<and> tags ?resp = []"
    using de ta by auto
  show ?thesis using h s de ta both by blast
qed


theorem C6_task_failures_isolated_witness:
  "handleProcess
     \<lparr>PROVIDER = js ''nosuch'', MODEL = None, DESCRIPTION_PROMPT = None,
      TAG_PROMPT = None, TASKS = [js ''description'', js ''tag'']\<rparr>
     (\<lambda>b. Inr b)
     (\<lambda>r. Inl (Error (js ''unknown provider'')))
     (\<lambda>r. Inl (Error (js ''unknown provider'')))
     (Some (js ''multipart/form-data; boundary=B''))
     (bufferFromBinary (js ''--B'' @ CRLF
        @ js ''Content-Disposition: form-data; name='' @ [34] @ js ''image'' @ [34]
        @ js ''; filename='' @ [34] @ js ''a.jpg'' @ [34] @ CRLF @ CRLF
        @ [65, 66] @ CRLF @ js ''--B--'' @ CRLF))
   = (200, Processed
        \<lparr>success = True, description = [], tags = [], rawTagsText = Some [],
         provider = js ''nosuch'', model = js ''default'',
         tasks = [js ''description'', js ''tag''], tokenUsage = None\<rparr>)"
proof -
  let ?cfg = "\<lparr>PROVIDER = js ''nosuch'', MODEL = None, DESCRIPTION_PROMPT = None,
      TAG_PROMPT = None, TASKS = [js ''description'', js ''tag'']\<rparr>"
  let ?h = "Some (js ''multipart/form-data; boundary=B'')"
  let ?body = "bufferFromBinary (js ''--B'' @ CRLF
        @ js ''Content-Disposition: form-data; name='' @ [34] @ js ''image'' @ [34]
        @ js ''; filename='' @ [34] @ js ''a.jpg'' @ [34] @ CRLF @ CRLF
        @ [65, 66] @ CRLF @ js ''--B--'' @ CRLF)"
  let ?form = "\<lparr>formFields = Map.empty, formFiles = [js ''image'' \<mapsto> [65, 66]]\<rparr>"
  let ?fail = "\<lambda>r::GenerationRequest. Inl (Error (js ''unknown provider'')) :: error + GenerationResult"
  have 1: "includesStr (orElse ?h []) (js ''multipart/form-data'')"
    by (simp add: orElse_def js_def)
  have 2: "parseMultipartData ?h ?body = Inr ?form"
    by (simp add: multipart_defs)
  have 3: "formFiles ?form (js ''image'') = Some [65, 66]" by simp
  have 4: "(\<lambda>b::buffer. Inr b :: error + buffer) [65, 66] = Inr [65, 66]" by simp
  have 5: "js ''description'' \<in> set (requestTasks ?cfg (formFields ?form))"
    by (simp add: requestTasks_def js_def)
  have 6: "js ''tag'' \<in> set (requestTasks ?cfg (formFields ?form))
           \<or> js ''tags'' \<in> set (requestTasks ?cfg (formFields ?form))"
    by (simp add: requestTasks_def js_def)
  obtain resp where r: "handleProcess ?cfg (\<lambda>b. Inr b) ?fail ?fail ?h ?body = (200, Processed resp)"
    "success resp" "description resp = []" "tags resp = []"
    using C6_task_failures_isolated [of ?h ?body ?form "[65, 66]" "\<lambda>b. Inr b" "[65, 66]" ?cfg ?fail ?fail,
        OF 1 2 3 4 5 6]
    by auto
  have "handleProcess ?cfg (\<lambda>b. Inr b) ?fail ?fail ?h ?body
      = (200, Processed (processTasks ?cfg ?fail ?fail (formFields ?form) [65, 66]))"
    using 1 2 by (simp add: handleProcess_def)
  moreover have "processTasks ?cfg ?fail ?fail (formFields ?form) [65, 66]
      = \<lparr>success = True, description = [], tags = [], rawTagsText = Some [],
         provider = js ''nosuch'', model = js ''default'',
         tasks = [js ''description'', js ''tag''], tokenUsage = None\<rparr>"
    by (simp add: processTasks_def Let_def descriptionTask_def tagTask_def initialLocals_def
        request_defs isPositive_def js_def)
  ultimately show ?thesis using r by simp
qed

text \<open>The total of the token counts.\<close>

lemma dropBits_min:
  "2 ^ 53 \<le> n div 2 ^ e0 \<Longrightarrow> e0 < dropBits e0 n \<and> 2 ^ 53 \<le> n div 2 ^ (dropBits e0 n - 1)"
proof (induction e0 n rule: dropBits.induct)
  case (1 e n)
  have ne: "\<not> n div 2 ^ e < 2 ^ 53" using 1(2) by simp
  then have d: "dropBits e n = dropBits (Suc e) n" by (subst dropBits.simps) simp
  show ?case
  proof (cases "n div 2 ^ Suc e < 2 ^ 53")
    case True
    then have "dropBits (Suc e) n = Suc e" by (subst dropBits.simps) simp
    then show ?thesis using d 1(2) by simp
  next
    case False
    then have "2 ^ 53 \<le> n div 2 ^ Suc e" by simp
    then have "Suc e < dropBits (Suc e) n \<and> 2 ^ 53 \<le> n div 2 ^ (dropBits (Suc e) n - 1)"
      using 1(1) ne by blast
    then show ?thesis using d by simp
  qed
qed

lemma roundToDouble_positive: "isPositive (roundToDouble n) = (0 < n)"
proof (cases "n \<le> 2 ^ 53")
  case True
  then show ?thesis by (simp add: roundToDouble_def isPositive_def)
next
  case False
  then have big: "2 ^ 53 \<le> n div 2 ^ 0" by simp
  let ?e = "dropBits 0 n"
  have m: "0 < ?e \<and> 2 ^ 53 \<le> n div 2 ^ (?e - 1)" using dropBits_min [OF big] .
  have "n div 2 ^ ?e = (n div 2 ^ (?e - 1)) div 2"
  proof -
    have "2 ^ ?e = (2::nat) ^ (?e - 1) * 2" using m by (cases ?e) auto
    then show ?thesis by (simp add: div_mult2_eq)
  qed
  then have q: "0 < n div 2 ^ ?e" using m by simp
  have "0 < n" using False by (cases n) auto
  then show ?thesis using False q
    by (auto simp: roundToDouble_def isPositive_def Let_def)
qed

lemma jsAdd_positive: "isPositive (jsAdd x b) = (isPositive x \<or> 0 < b)"
proof (cases x)
  case (Num a)
  have "isPositive (roundToDouble (a + b)) = (0 < a + b)" by (rule roundToDouble_positive)
  then show ?thesis using Num by (auto simp: jsAdd_def isPositive_def)
next
  case PosInfinity
  then show ?thesis by (simp add: jsAdd_def isPositive_def)
qed

lemma isPositive_Num: "isPositive (Num a) = (0 < a)"
  by (simp add: isPositive_def)

lemma jsAdd_exact: "a + b \<le> 2 ^ 53 \<Longrightarrow> jsAdd (Num a) b = Num (a + b)"
  by (simp add: jsAdd_def roundToDouble_def)

lemma processTasks_tokenUsage:
  fixes cfg gd gt flds buf
  defines "resp \<equiv> processTasks cfg gd gt flds buf"
  defines "d \<equiv> (if js ''description'' \<in> set (requestTasks cfg flds)
             then (case gd (descriptionRequest cfg flds buf) of
                     Inl e \<Rightarrow> 0
                   | Inr r \<Rightarrow> orZero (totalTokens r))
             else 0)"
  defines "t \<equiv> (if js ''tag'' \<in> set (requestTasks cfg flds) \<or> js ''tags'' \<in> set (requestTasks cfg flds)
             then (case gt (tagRequest cfg flds buf) of
                     Inl e \<Rightarrow> 0
                   | Inr r \<Rightarrow> orZero (totalTokens r))
             else 0)"
  shows "(tokenUsage resp \<noteq> None) = (0 < d + t)"
    and "tokenUsage resp = Some u \<Longrightarrow> usageDescription u = d \<and> usageTags u = t"
    and "tokenUsage resp = Some u \<Longrightarrow> d + t \<le> 2 ^ 53 \<Longrightarrow> usageTotal u = Num (d + t)"
proof -
  show "(tokenUsage resp \<noteq> None) = (0 < d + t)"
    unfolding resp_def d_def t_def
    by (auto simp: processTasks_def Let_def tagTask_fields descriptionTask_fields
        initialLocals_def jsAdd_positive isPositive_Num split: sum.splits)
  show "tokenUsage resp = Some u \<Longrightarrow> usageDescription u = d \<and> usageTags u = t"
    unfolding resp_def d_def t_def
    by (auto simp: processTasks_def Let_def tagTask_fields descriptionTask_fields
        initialLocals_def split: sum.splits if_splits)
  show "tokenUsage resp = Some u \<Longrightarrow> d + t \<le> 2 ^ 53 \<Longrightarrow> usageTotal u = Num (d + t)"
    unfolding resp_def d_def t_def
    by (auto simp: processTasks_def Let_def tagTask_fields descriptionTask_fields
        initialLocals_def jsAdd_exact split: sum.splits if_splits)
qed

text \<open>
  C10 (as stated, refuted). The description task reports 9007199254740992 tokens, which is
  \<open>2 ^ 53\<close>, and the tag task reports 1. The response holds the total 9007199254740992 and
  not the sum 9007199254740993: the total is a double, and the sum is rounded to it.
\<close>

theorem C10_total_rounded_counterexample:
  "handleProcess
     \<lparr>PROVIDER = js ''p'', MODEL = None, DESCRIPTION_PROMPT = None,
      TAG_PROMPT = None, TASKS = [js ''description'', js ''tag'']\<rparr>
     (\<lambda>b. Inr b)
     (\<lambda>r. Inr \<lparr>genText = Some (js ''A cat''), totalTokens = Some 9007199254740992\<rparr>)
     (\<lambda>r. Inr \<lparr>genText = Some (js ''cat''), totalTokens = Some 1\<rparr>)
     (Some (js ''multipart/form-data; boundary=B''))
     (bufferFromBinary (js ''--B'' @ CRLF
        @ js ''Content-Disposition: form-data; name='' @ [34] @ js ''image'' @ [34]
        @ js ''; filename='' @ [34] @ js ''a.jpg'' @ [34] @ CRLF @ CRLF
        @ [65, 66] @ CRLF @ js ''--B--'' @ CRLF))
   = (200, Processed
        \<lparr>success = True, description = js ''A cat'', tags = [js ''cat''],
         rawTagsText = Some (js ''cat''), provider = js ''p'', model = js ''default'',
         tasks = [js ''description'', js ''tag''],
         tokenUsage = Some \<lparr>usageDescription = 9007199254740992, usageTags = 1,
                            usageTotal = Num 9007199254740992\<rparr>\<rparr>)
   \<and> Num 9007199254740992 \<noteq> Num (9007199254740992 + 1)"
  by (simp add: handleProcess_def multipart_defs processTasks_def Let_def descriptionTask_def
      tagTask_def initialLocals_def request_defs isPositive_def jsAdd_def roundToDouble_def
      dropBits.simps cleanTags_defs charClass_defs)


text \<open>
  C10 (amended). A request that is decoded and carries an image is answered with status
  200 and the success object. That object holds a \<open>tokenUsage\<close> exactly when the sum of the
  token counts of the two tasks is positive; then its description count is the count of
  the description task, its tags count the count of the tag task, and its total is their
  sum whenever the sum is at most \<open>2 ^ 53\<close>. A task counts 0 when it is not requested, when
  its call throws and when the provider reports no usage.
\<close>

theorem C10_token_usage:
  assumes ct: "includesStr (orElse contentTypeHeader []) (js ''multipart/form-data'')"
    and parse: "parseMultipartData contentTypeHeader body = Inr form"
    and img: "formFiles form (js ''image'') = Some imageBuffer"
    and io: "tempFile imageBuffer = Inr imageBufferForAI"
  shows "\<exists>resp.
      handleProcess cfg tempFile getDescriptionWithUsage getTagsWithUsage contentTypeHeader body
        = (200, Processed resp)
      \<and> (let d = (if js ''description'' \<in> set (requestTasks cfg (formFields form))
                  then (case getDescriptionWithUsage
                               (descriptionRequest cfg (formFields form) imageBufferForAI) of
                          Inl e \<Rightarrow> 0
                        | Inr r \<Rightarrow> orZero (totalTokens r))
                  else 0);
             t = (if js ''tag'' \<in> set (requestTasks cfg (formFields form))
                     \<or> js ''tags'' \<in> set (requestTasks cfg (formFields form))
                  then (case getTagsWithUsage
                               (tagRequest cfg (formFields form) imageBufferForAI) of
                          Inl e \<Rightarrow> 0
                        | Inr r \<Rightarrow> orZero (totalTokens r))
                  else 0)
         in ((tokenUsage resp \<noteq> None) = (0 < d + t))
            \<and> (\<forall>u. tokenUsage resp = Some u
                   \<longrightarrow> usageDescription u = d \<and> usageTags u = t
                       \<and> (d + t \<le> 2 ^ 53 \<longrightarrow> usageTotal u = Num (d + t))))"
proof -
  let ?resp = "processTasks cfg getDescriptionWithUsage getTagsWithUsage (formFields form)
                 imageBufferForAI"
  have h: "handleProcess cfg tempFile getDescriptionWithUsage getTagsWithUsage
             contentTypeHeader body = (200, Processed ?resp)"
    using ct parse img io by (simp add: handleProcess_def)
  define d where "d = (if js ''description'' \<in> set (requestTasks cfg (formFields form))
                  then (case getDescriptionWithUsage
                               (descriptionRequest cfg (formFields form) imageBufferForAI) of
                          Inl e \<Rightarrow> 0
                        | Inr r \<Rightarrow> orZero (totalTokens r))
                  else 0)"
  define t where "t = (if js ''tag'' \<in> set (requestTasks cfg (formFields form))
                     \<or> js ''tags'' \<in> set (requestTasks cfg (formFields form))
                  then (case getTagsWithUsage
                               (tagRequest cfg (formFields form) imageBufferForAI) of
                          Inl e \<Rightarrow> 0
                        | Inr r \<Rightarrow> orZero (totalTokens r))
                  else 0)"
  have a: "(tokenUsage ?resp \<noteq> None) = (0 < d + t)"
    unfolding d_def t_def by (rule processTasks_tokenUsage(1))
  have b: "usageDescription u = d \<and> usageTags u = t" if "tokenUsage ?resp = Some u" for u
    using that unfolding d_def t_def by (rule processTasks_tokenUsage(2))
  have c: "usageTotal u = Num (d + t)" if "tokenUsage ?resp = Some u" "d + t \<le> 2 ^ 53" for u
    using that unfolding d_def t_def by (rule processTasks_tokenUsage(3))
  have "((tokenUsage ?resp \<noteq> None) = (0 < d + t))
            \<and> (\<forall>u. tokenUsage ?resp = Some u
                   \<longrightarrow> usageDescription u = d \<and> usageTags u = t
                       \<and> (d + t \<le> 2 ^ 53 \<longrightarrow> usageTotal u = Num (d + t)))"
    using a b c by blast
  with h have "handleProcess cfg tempFile getDescriptionWithUsage getTagsWithUsage
             contentTypeHeader body = (200, Processed ?resp)
      \<and> (((tokenUsage ?resp \<noteq> None) = (0 < d + t))
            \<and> (\<forall>u. tokenUsage ?resp = Some u
                   \<longrightarrow> usageDescription u = d \<and> usageTags u = t
                       \<and> (d + t \<le> 2 ^ 53 \<longrightarrow> usageTotal u = Num (d + t))))"
    by (rule conjI)
  then show ?thesis unfolding Let_def d_def t_def by (rule exI [of _ ?resp])
qed


theorem C10_token_usage_witness:
  "\<exists>resp.
     handleProcess
       \<lparr>PROVIDER = js ''p'', MODEL = None, DESCRIPTION_PROMPT = None,
        TAG_PROMPT = None, TASKS = [js ''description'', js ''tag'']\<rparr>
       (\<lambda>b. Inr b)
       (\<lambda>r. Inr \<lparr>genText = Some (js ''A cat''), totalTokens = Some 12\<rparr>)
       (\<lambda>r. Inr \<lparr>genText = Some (js ''cat''), totalTokens = Some 5\<rparr>)
       (Some (js ''multipart/form-data; boundary=B''))
       (bufferFromBinary (js ''--B'' @ CRLF
          @ js ''Content-Disposition: form-data; name='' @ [34] @ js ''image'' @ [34]
          @ js ''; filename='' @ [34] @ js ''a.jpg'' @ [34] @ CRLF @ CRLF
          @ [65, 66] @ CRLF @ js ''--B--'' @ CRLF))
     = (200, Processed resp)
     \<and> tokenUsage resp
         = Some \<lparr>usageDescription = 12, usageTags = 5, usageTotal = Num 17\<rparr>"
proof -
  let ?cfg = "\<lparr>PROVIDER = js ''p'', MODEL = None, DESCRIPTION_PROMPT = None,
        TAG_PROMPT = None, TASKS = [js ''description'', js ''tag'']\<rparr>"
  let ?gd = "\<lambda>r::GenerationRequest.
       Inr \<lparr>genText = Some (js ''A cat''), totalTokens = Some 12\<rparr> :: error + GenerationResult"
  let ?gt = "\<lambda>r::GenerationRequest.
       Inr \<lparr>genText = Some (js ''cat''), totalTokens = Some 5\<rparr> :: error + GenerationResult"
  let ?h = "Some (js ''multipart/form-data; boundary=B'')"
  let ?body = "bufferFromBinary (js ''--B'' @ CRLF
          @ js ''Content-Disposition: form-data; name='' @ [34] @ js ''image'' @ [34]
          @ js ''; filename='' @ [34] @ js ''a.jpg'' @ [34] @ CRLF @ CRLF
          @ [65, 66] @ CRLF @ js ''--B--'' @ CRLF)"
  let ?form = "\<lparr>formFields = Map.empty, formFiles = [js ''image'' \<mapsto> [65, 66]]\<rparr>"
  have 1: "includesStr (orElse ?h []) (js ''multipart/form-data'')"
    by (simp add: orElse_def js_def)
  have 2: "parseMultipartData ?h ?body = Inr ?form"
    by (simp add: multipart_defs)
  have 3: "formFiles ?form (js ''image'') = Some [65, 66]" by simp
  have 4: "(\<lambda>b::buffer. Inr b :: error + buffer) [65, 66] = Inr [65, 66]" by simp
  have tasks: "requestTasks ?cfg (formFields ?form) = [js ''description'', js ''tag'']"
    by (simp add: requestTasks_def)
  have d: "js ''description'' \<in> set (requestTasks ?cfg (formFields ?form))"
    using tasks by simp
  have t: "js ''tag'' \<in> set (requestTasks ?cfg (formFields ?form))" using tasks by simp
  obtain resp where r: "handleProcess ?cfg (\<lambda>b. Inr b) ?gd ?gt ?h ?body = (200, Processed resp)"
    and a: "(tokenUsage resp \<noteq> None) = (0 < (12::nat) + 5)"
    and b: "\<forall>u. tokenUsage resp = Some u
              \<longrightarrow> usageDescription u = 12 \<and> usageTags u = 5
                  \<and> ((12::nat) + 5 \<le> 2 ^ 53 \<longrightarrow> usageTotal u = Num (12 + 5))"
    using C10_token_usage [of ?h ?body ?form "[65, 66]" "\<lambda>b. Inr b" "[65, 66]" ?cfg ?gd ?gt,
        OF 1 2 3 4] d t
    by (auto simp: Let_def orZero_def)
  from a obtain u where u: "tokenUsage resp = Some u" by auto
  then have "usageDescription u = 12" "usageTags u = 5" "usageTotal u = Num 17"
    using b by auto
  then have "u = \<lparr>usageDescription = 12, usageTags = 5, usageTotal = Num 17\<rparr>" by simp
  then show ?thesis using r u by blast
qed


section \<open>The merge policy and dry mode\<close>

text \<open>
  C2. Merging with \<open>avoidOverwrite = true\<close> leaves every field that holds a non-empty value
  unchanged, and sets a targeted field that is empty to the generated value; merging a
  generated value with \<open>avoidOverwrite = false\<close> sets every targeted field to that value,
  whatever the field held.
\<close>

theorem C2_merge_policy:
  "(\<forall>field. nonEmptyValue (document field)
       \<longrightarrow> merge targets document generated True field = document field)
   \<and> (\<forall>field g. field \<in> set targets \<and> \<not> nonEmptyValue (document field)
       \<longrightarrow> merge targets document (Some g) True field = Some g)
   \<and> (\<forall>field g. field \<in> set targets
       \<longrightarrow> merge targets document (Some g) False field = Some g)"
  by (auto simp: merge_def mergeField_def split: option.splits)


text \<open>The witness is the test of \<open>avoidOverwrite\<close>: the comment holds
  \<open>Existing comment\<close> and the three other description fields read as the blank
  placeholder of 31 spaces.\<close>

theorem C2_merge_policy_witness:
  "merge [js ''XPComment'', js ''Description'', js ''ImageDescription'', js ''Caption-Abstract'']
      [js ''XPComment'' \<mapsto> js ''Existing comment'',
       js ''Description'' \<mapsto> js ''                               '',
       js ''ImageDescription'' \<mapsto> js ''                               '',
       js ''Caption-Abstract'' \<mapsto> js ''                               '']
      (Some (js ''Describe image.'')) True (js ''XPComment'')
     = Some (js ''Existing comment'')
   \<and> merge [js ''XPComment'', js ''Description'', js ''ImageDescription'', js ''Caption-Abstract'']
      [js ''XPComment'' \<mapsto> js ''Existing comment'',
       js ''Description'' \<mapsto> js ''                               '',
       js ''ImageDescription'' \<mapsto> js ''                               '',
       js ''Caption-Abstract'' \<mapsto> js ''                               '']
      (Some (js ''Describe image.'')) True (js ''Description'')
     = Some (js ''Describe image.'')
   \<and> merge [js ''XPComment'', js ''Description'', js ''ImageDescription'', js ''Caption-Abstract'']
      [js ''XPComment'' \<mapsto> js ''Existing comment'',
       js ''Description'' \<mapsto> js ''                               '',
       js ''ImageDescription'' \<mapsto> js ''                               '',
       js ''Caption-Abstract'' \<mapsto> js ''                               '']
      (Some (js ''Describe image.'')) False (js ''XPComment'')
     = Some (js ''Describe image.'')"
proof -
  let ?targets = "[js ''XPComment'', js ''Description'', js ''ImageDescription'',
                   js ''Caption-Abstract'']"
  let ?doc = "[js ''XPComment'' \<mapsto> js ''Existing comment'',
       js ''Description'' \<mapsto> js ''                               '',
       js ''ImageDescription'' \<mapsto> js ''                               '',
       js ''Caption-Abstract'' \<mapsto> js ''                               '']"
  have x: "?doc (js ''XPComment'') = Some (js ''Existing comment'')"
    by (simp add: js_def)
  have 1: "nonEmptyValue (?doc (js ''XPComment''))"
    by (simp add: nonEmptyValue_def trim_def isWhiteSpace_def js_def)
  have 2: "js ''Description'' \<in> set ?targets \<and> \<not> nonEmptyValue (?doc (js ''Description''))"
    by (simp add: nonEmptyValue_def trim_def isWhiteSpace_def js_def)
  have 3: "js ''XPComment'' \<in> set ?targets" by simp
  have a: "merge ?targets ?doc (Some (js ''Describe image.'')) True (js ''XPComment'')
             = ?doc (js ''XPComment'')"
    using 1 C2_merge_policy [of ?doc ?targets "Some (js ''Describe image.'')"] by blast
  have b: "merge ?targets ?doc (Some (js ''Describe image.'')) True (js ''Description'')
             = Some (js ''Describe image.'')"
    using 2 C2_merge_policy [of ?doc ?targets "Some (js ''Describe image.'')"] by blast
  have c: "merge ?targets ?doc (Some (js ''Describe image.'')) False (js ''XPComment'')
             = Some (js ''Describe image.'')"
    using 3 C2_merge_policy [of ?doc ?targets "Some (js ''Describe image.'')"] by blast
  show ?thesis using a b c x by simp
qed

text \<open>
  C9. In dry mode the document after the call is the document before it, in every field
  and for every overwrite setting, and the result that \<open>execute\<close> returns is the one that
  the same call returns when it persists.
\<close>

theorem C9_dry_mode_frame:
  "dry opts \<longrightarrow>
     snd (execute opts generateDescription generateTags imageBytes document) = document
     \<and> fst (execute opts generateDescription generateTags imageBytes document)
         = fst (execute (opts\<lparr>dry := False\<rparr>) generateDescription generateTags imageBytes document)"
  by (simp add: execute_def Let_def)

theorem C9_dry_mode_frame_witness:
  "snd (execute
          \<lparr>optProvider = js ''provider1'', optModel = Some (js ''model1''),
           descriptionTags = [js ''XPComment'', js ''Description''],
           tagSlot = js ''Subject'', tagDelimiter = js '', '',
           descriptionPrompt = js ''Describe image.'', tagPrompt = js ''Tag image.'',
           optTasks = [js ''description''], avoidOverwrite = False, dry = True\<rparr>
          (\<lambda>r. Inr \<lparr>genText = Some (genPrompt r), totalTokens = None\<rparr>)
          (\<lambda>r. Inr \<lparr>genText = Some (genPrompt r), totalTokens = None\<rparr>)
          [] [js ''XPComment'' \<mapsto> js ''Existing comment''])
     = [js ''XPComment'' \<mapsto> js ''Existing comment'']"
proof -
  let ?opts = "\<lparr>optProvider = js ''provider1'', optModel = Some (js ''model1''),
           descriptionTags = [js ''XPComment'', js ''Description''],
           tagSlot = js ''Subject'', tagDelimiter = js '', '',
           descriptionPrompt = js ''Describe image.'', tagPrompt = js ''Tag image.'',
           optTasks = [js ''description''], avoidOverwrite = False, dry = True\<rparr>"
  have "dry ?opts" by simp
  then show ?thesis using C9_dry_mode_frame [of ?opts] by blast
qed

section \<open>The cleaned tag list\<close>

text \<open>
  C3. For every raw tag text the cleaned tag list has at most 20 entries; every entry is
  not empty, has at most 50 code units and at most 2 whitespace-separated words; and the
  entries stand in the order of the pieces of the text they come from (the list is a
  subsequence of the cleaned pieces).
\<close>

theorem C3_tags_bounded:
  "length (cleanTags raw) \<le> 20
   \<and> (\<forall>t \<in> set (cleanTags raw). t \<noteq> [] \<and> length t \<le> 50 \<and> whitespaceWords t \<le> 2)
   \<and> subseq (cleanTags raw) (map cleaned (rawTags raw))"
proof (intro conjI ballI)
  show "length (cleanTags raw) \<le> 20" by (simp add: cleanTags_def)
next
  fix t assume t: "t \<in> set (cleanTags raw)"
  then obtain r where k: "keepTag t" and r: "t = cleaned r" using in_cleanTags by blast
  show "t \<noteq> []" using k by (auto simp: keepTag_def)
  show "length t \<le> 50" using k by (simp add: keepTag_def)
  have "whitespaceWords t \<le> wordCount t"
    by (rule whitespaceWords_le_wordCount) (use r cleaned_space in blast)
  then show "whitespaceWords t \<le> 2" using k by (simp add: keepTag_def)
next
  have "subseq (take 20 (filter keepTag (map cleaned (rawTags raw)))) (filter keepTag (map cleaned (rawTags raw)))"
    by (metis append_take_drop_id prefix_def prefix_imp_subseq)
  also have "subseq (filter keepTag (map cleaned (rawTags raw))) (map cleaned (rawTags raw))"
    by simp
  finally show "subseq (cleanTags raw) (map cleaned (rawTags raw))" by (simp add: cleanTags_def)
qed

theorem C3_tags_bounded_witness:
  "js ''Sky'' \<in> set (cleanTags (js ''* Mountain, **Sky**''))
   \<and> js ''Sky'' \<noteq> [] \<and> length (js ''Sky'') \<le> 50 \<and> whitespaceWords (js ''Sky'') \<le> 2
   \<and> length (cleanTags (js ''* Mountain, **Sky**'')) \<le> 20"
proof -
  have m: "js ''Sky'' \<in> set (cleanTags (js ''* Mountain, **Sky**''))"
    by (simp add: cleanTags_defs charClass_defs js_def)
  show ?thesis using m C3_tags_bounded [of "js ''* Mountain, **Sky**''"] by blast
qed

text \<open>
  C4 (as stated, refuted). The raw text \<open>#1 dog\<close> is cleaned to the one tag \<open>1 dog\<close>;
  cleaning that tag again strips the leading digit as a numbering and gives \<open>dog\<close>.
\<close>

theorem C4_idempotent_counterexample:
  "cleanTags (joinStr [44] (cleanTags (js ''#1 dog''))) \<noteq> cleanTags (js ''#1 dog'')"
  by (simp add: cleanTags_defs charClass_defs js_def)

text \<open>
  C4 (amended). When no tag of the cleaned list starts with a decimal digit, cleaning the
  comma-joined list again gives the same list.
\<close>

theorem C4_idempotent_without_leading_digit:
  assumes nd: "list_all (\<lambda>t. \<not> isDigit (hd t)) (cleanTags raw)"
  shows "cleanTags (joinStr [44] (cleanTags raw)) = cleanTags raw"
proof (cases "cleanTags raw = []")
  case True
  then show ?thesis by (simp add: cleanTags_empty_text)
next
  case False
  let ?L = "cleanTags raw"
  have mem: "\<And>t. t \<in> set ?L \<Longrightarrow> keepTag t \<and> (\<exists>r. t = cleaned r)" by (rule in_cleanTags)
  have fixed: "\<And>t. t \<in> set ?L \<Longrightarrow> cleaned (trim t) = t"
  proof -
    fix t assume t: "t \<in> set ?L"
    then obtain r where k: "keepTag t" and r: "t = cleaned r" using mem by blast
    have ne: "cleaned r \<noteq> []" using k r by (auto simp: keepTag_def)
    have "\<not> isDigit (hd t)" using nd t by (simp add: list_all_iff)
    then have "cleaned (cleaned r) = cleaned r" using ne r cleaned_fixed by simp
    moreover have "trim (cleaned r) = cleaned r" using ne cleaned_ends [OF ne] by (simp add: trim_id)
    ultimately show "cleaned (trim t) = t" using r by simp
  qed
  have nodelim: "\<And>t c. t \<in> set ?L \<Longrightarrow> c \<in> set t \<Longrightarrow> \<not> isTagDelimiter c"
    using mem cleaned_chars wordChar_not_delimiter by blast
  have "splitOn isTagDelimiter (joinStr [44] ?L) = ?L"
    by (rule splitOn_joinStr) (use False nodelim in \<open>auto simp: isTagDelimiter_def\<close>)
  then have "map cleaned (rawTags (joinStr [44] ?L)) = map (\<lambda>t. cleaned (trim t)) ?L"
    by (simp add: rawTags_def)
  also have "\<dots> = ?L" using fixed by (simp add: map_idI)
  finally have m: "map cleaned (rawTags (joinStr [44] ?L)) = ?L" .
  have f: "filter keepTag ?L = ?L" using mem by (simp add: filter_id_conv)
  have l: "length ?L \<le> 20" by (simp add: cleanTags_def)
  have "cleanTags (joinStr [44] ?L) = take 20 (filter keepTag (map cleaned (rawTags (joinStr [44] ?L))))"
    by (simp only: cleanTags_def)
  then show ?thesis using m f l by simp
qed


theorem C4_idempotent_without_leading_digit_witness:
  "list_all (\<lambda>t. \<not> isDigit (hd t)) (cleanTags (js ''* Mountain, **Sky**''))
   \<and> cleanTags (joinStr [44] (cleanTags (js ''* Mountain, **Sky**'')))
       = cleanTags (js ''* Mountain, **Sky**'')"
proof -
  have h: "list_all (\<lambda>t. \<not> isDigit (hd t)) (cleanTags (js ''* Mountain, **Sky**''))"
    by (simp add: cleanTags_defs charClass_defs js_def)
  show ?thesis using h C4_idempotent_without_leading_digit [OF h] by simp
qed

section \<open>The scenario of the tag cleaning\<close>

text \<open>
  C5 (as stated, refuted). The claim gives \<open>["Mountain", "Sky", "Night stars"]\<close> for the raw
  text of the scenario. The third piece, \<open>Night stars and clouds\<close>, has four words: the
  filter discards it, it is not cut down to its first two words.
\<close>

theorem C5_scenario_counterexample:
  "cleanTags (js ''* Mountain, **Sky**'' @ [10] @ js ''Night stars and clouds'')
     \<noteq> [js ''Mountain'', js ''Sky'', js ''Night stars'']"
  by (simp add: cleanTags_defs charClass_defs js_def)

text \<open>
  C5 (amended). Cleaning the raw tag text \<open>* Mountain, **Sky**\<close>, line feed,
  \<open>Night stars and clouds\<close> gives the tags \<open>Mountain\<close> and \<open>Sky\<close>: the bullet and the
  asterisks are stripped, and the piece of four words contributes no tag.
\<close>

theorem C5_scenario:
  "cleanTags (js ''* Mountain, **Sky**'' @ [10] @ js ''Night stars and clouds'')
     = [js ''Mountain'', js ''Sky'']"
  by (simp add: cleanTags_defs charClass_defs js_def)

end
